theory Spec2Isabelle
  imports Complex_Main "HOL-Library.AList"
begin

section \<open>Timestamps and time deltas\<close>

text \<open>
  A timestamp is the number of microseconds of local wall-clock time since the epoch
  (the resolution of \<^verbatim>\<open>datetime.timedelta\<close>); the epoch is a local midnight, so the
  calendar fields that \<^verbatim>\<open>replace\<close> resets are remainders of the count.
\<close>

type_synonym timestamp = int

definition usec_minute :: int where
  "usec_minute = 60000000"

definition usec_hour :: int where
  "usec_hour = 3600000000"

definition usec_day :: int where
  "usec_day = 86400000000"

definition hours :: "int \<Rightarrow> int" where
  \<comment> \<open>\<^verbatim>\<open>datetime.timedelta(hours=n)\<close>\<close>
  "hours n = n * usec_hour"

definition half_hours :: "int \<Rightarrow> int" where
  \<comment> \<open>\<^verbatim>\<open>datetime.timedelta(hours=n/2)\<close>: \<^verbatim>\<open>hours=2.5\<close> is five half hours\<close>
  "half_hours n = n * 1800000000"

definition replace_midnight :: "timestamp \<Rightarrow> timestamp" where
  \<comment> \<open>\<^verbatim>\<open>.replace(hour=0, minute=0, second=0, microsecond=0)\<close>\<close>
  "replace_midnight t = t - t mod usec_day"

definition replace_minute :: "timestamp \<Rightarrow> timestamp" where
  \<comment> \<open>\<^verbatim>\<open>.replace(second=0, microsecond=0)\<close>\<close>
  "replace_minute t = t - t mod usec_minute"

section \<open>Series, label slices and means\<close>

text \<open>
  A pandas Series with a time index is the list of its rows, in index order. A value
  is a float: a number, or NaN (here \<open>None\<close>). \<^verbatim>\<open>mean()\<close> skips the NaN values, and
  the mean of no value is NaN.
\<close>

type_synonym 'a series = "(timestamp \<times> 'a option) list"

datatype py_exn = ValueError | IndexError | KeyError

text \<open>
  A pandas Timestamp counts nanoseconds. One that falls on a whole microsecond, as every
  label does, is \<open>Timestamp\<close> of its microseconds; one with a nanosecond part is
  \<open>Timestamp_ns\<close> of its nanoseconds since the epoch. \<open>of_nanoseconds\<close> makes the
  value of a count of nanoseconds, \<open>nanoseconds\<close> reads the count back.
\<close>

datatype py_value = PyFalse | NaT | Timestamp timestamp | Timestamp_ns int

definition of_nanoseconds :: "int \<Rightarrow> py_value" where
  "of_nanoseconds q = (if q mod 1000 = 0 then Timestamp (q div 1000) else Timestamp_ns q)"


definition slice_ts :: "'a series \<Rightarrow> timestamp \<Rightarrow> timestamp \<Rightarrow> 'a series" where
  \<comment> \<open>\<^verbatim>\<open>s[lo:hi]\<close> by label on a monotonic time index: both ends are included\<close>
  "slice_ts s lo hi = filter (\<lambda>p. lo \<le> fst p \<and> fst p \<le> hi) s"

fun dropna :: "'a option list \<Rightarrow> 'a list" where
  "dropna [] = []"
| "dropna (None # xs) = dropna xs"
| "dropna (Some x # xs) = x # dropna xs"

definition mean :: "'a::field option list \<Rightarrow> 'a option" where
  "mean xs = (let vs = dropna xs in
              if vs = [] then None else Some (sum_list vs / of_nat (length vs)))"

definition trunc_div :: "int \<Rightarrow> int \<Rightarrow> int" where
  \<comment> \<open>the quotient cut toward zero, as the conversion of the mean to \<^verbatim>\<open>int64\<close> cuts it\<close>
  "trunc_div a b = sgn a * (\<bar>a\<bar> div b)"

definition ts_mean :: "timestamp list \<Rightarrow> py_value" where
  \<comment> \<open>the mean of a Series of Timestamps: the sum of their nanoseconds over their number,
      cut toward zero to a whole nanosecond; the mean of none is NaT\<close>
  "ts_mean ts =
     (if ts = [] then NaT
      else of_nanoseconds (trunc_div (1000 * sum_list ts) (int (length ts))))"

section \<open>Python's min and max over a dict with \<^verbatim>\<open>key=d.get\<close>\<close>

definition nan_less :: "'a::linorder option \<Rightarrow> 'a option \<Rightarrow> bool" where
  \<comment> \<open>\<^verbatim>\<open><\<close> on floats: every comparison with NaN is false\<close>
  "nan_less a b = (case a of None \<Rightarrow> False
                   | Some x \<Rightarrow> (case b of None \<Rightarrow> False | Some y \<Rightarrow> x < y))"

fun min_from :: "('k \<times> 'a::linorder option) \<Rightarrow> ('k \<times> 'a option) list \<Rightarrow> 'k" where
  "min_from best [] = fst best"
| "min_from best (p # ps) =
     (if nan_less (snd p) (snd best) then min_from p ps else min_from best ps)"

fun max_from :: "('k \<times> 'a::linorder option) \<Rightarrow> ('k \<times> 'a option) list \<Rightarrow> 'k" where
  "max_from best [] = fst best"
| "max_from best (p # ps) =
     (if nan_less (snd best) (snd p) then max_from p ps else max_from best ps)"

definition py_min_key :: "('k \<times> 'a::linorder option) list \<Rightarrow> py_exn + 'k" where
  \<comment> \<open>\<^verbatim>\<open>min(d, key=d.get)\<close>: the first key of the least value; an empty dict raises\<close>
  "py_min_key d = (case d of [] \<Rightarrow> Inl ValueError | p # ps \<Rightarrow> Inr (min_from p ps))"

definition py_max_key :: "('k \<times> 'a::linorder option) list \<Rightarrow> py_exn + 'k" where
  "py_max_key d = (case d of [] \<Rightarrow> Inl ValueError | p # ps \<Rightarrow> Inr (max_from p ps))"

section \<open>The sliding-window scanner of \<^verbatim>\<open>L5_M10.py\<close>\<close>

text \<open>
  The loops of \<^verbatim>\<open>get_L5_short_period\<close> and \<^verbatim>\<open>get_M10_short_period\<close> differ in the
  window length and the offset of the mid-point only. The dict \<^verbatim>\<open>averages\<close> is an
  association list in insertion order; \<open>last_ts\<close> is \<^verbatim>\<open>short_data.index[-1]\<close>.
\<close>

fun window_loop ::
  "int \<Rightarrow> int \<Rightarrow> ('a::field) series \<Rightarrow> timestamp \<Rightarrow> timestamp list \<Rightarrow>
   (timestamp \<times> 'a option) list \<Rightarrow> (timestamp \<times> 'a option) list" where
  "window_loop dur mid short_data last_ts [] averages = averages"
| "window_loop dur mid short_data last_ts (beg_window # rest) averages =
     (let end_window = beg_window + dur in
      if end_window > last_ts then averages
      else window_loop dur mid short_data last_ts rest
             (AList.update (beg_window + mid)
                (mean (map snd (slice_ts short_data beg_window end_window))) averages))"

definition window_averages ::
  "int \<Rightarrow> int \<Rightarrow> ('a::field) series \<Rightarrow> (timestamp \<times> 'a option) list" where
  "window_averages dur mid short_data =
     (case short_data of [] \<Rightarrow> []
      | _ \<Rightarrow> window_loop dur mid short_data (fst (last short_data)) (map fst short_data) [])"

definition get_L5_short_period :: "('a::linordered_field) series \<Rightarrow> py_exn + timestamp" where
  "get_L5_short_period short_data =
     py_min_key (window_averages (hours 5) (half_hours 5) short_data)"

definition get_M10_short_period :: "('a::linordered_field) series \<Rightarrow> py_exn + timestamp" where
  "get_M10_short_period short_data =
     py_max_key (window_averages (hours 10) (hours 5) short_data)"

section \<open>The day loop\<close>

definition day_end :: "timestamp \<Rightarrow> timestamp \<Rightarrow> timestamp" where
  \<comment> \<open>the next midnight, or the end of the record when that comes first\<close>
  "day_end beg_day end_timestamp =
     (let end_day = replace_midnight (beg_day + usec_day) in
      if end_day > end_timestamp then end_timestamp else end_day)"

lemma replace_midnight_gt: "t < replace_midnight (t + usec_day)"
proof -
  have "(t + usec_day) mod usec_day < usec_day"
    by (simp add: usec_day_def)
  then show ?thesis
    by (simp add: replace_midnight_def)
qed

lemma day_end_gt: "beg_day < end_timestamp \<Longrightarrow> beg_day < day_end beg_day end_timestamp"
  using replace_midnight_gt [of beg_day] by (simp add: day_end_def Let_def)

lemma day_end_le: "beg_day < end_timestamp \<Longrightarrow> day_end beg_day end_timestamp \<le> end_timestamp"
  by (simp add: day_end_def Let_def)

text \<open>
  The day loops of \<^verbatim>\<open>get_L5\<close> and \<^verbatim>\<open>get_M10\<close> are the same loop around a different
  computation \<open>per_day\<close> on the bounds of the day; an exception of \<open>per_day\<close> leaves
  the loop.
\<close>

function day_loop ::
  "(timestamp \<Rightarrow> timestamp \<Rightarrow> py_exn + 'r) \<Rightarrow> timestamp \<Rightarrow> timestamp \<Rightarrow> 'r list \<Rightarrow>
   py_exn + 'r list" where
  "day_loop per_day beg_day end_timestamp acc =
     (if beg_day < end_timestamp then
        (case per_day beg_day (day_end beg_day end_timestamp) of
           Inl e \<Rightarrow> Inl e
         | Inr r \<Rightarrow> day_loop per_day (day_end beg_day end_timestamp) end_timestamp (acc @ [r]))
      else Inr acc)"
  by pat_completeness auto
termination
  by (relation "measure (\<lambda>(per_day, beg_day, end_timestamp, acc). nat (end_timestamp - beg_day))")
     (auto dest: day_end_gt)

declare day_loop.simps [simp del]

definition get_L5 :: "('a::linordered_field) series \<Rightarrow> py_exn + py_value" where
  "get_L5 data =
     (case data of [] \<Rightarrow> Inl IndexError
      | _ \<Rightarrow>
        (let beg_timestamp = fst (hd data); end_timestamp = fst (last data) in
         if end_timestamp - beg_timestamp < hours 5 then Inr PyFalse
         else if beg_timestamp + usec_day < end_timestamp then
           (case day_loop (\<lambda>beg_day end_day. get_L5_short_period (slice_ts data beg_day end_day))
                   beg_timestamp end_timestamp [] of
              Inl e \<Rightarrow> Inl e
            | Inr L5s \<Rightarrow> Inr (ts_mean L5s))
         else (case get_L5_short_period data of
                 Inl e \<Rightarrow> Inl e
               | Inr L5 \<Rightarrow> Inr (Timestamp L5))))"

definition get_M10 :: "('a::linordered_field) series \<Rightarrow> py_exn + py_value" where
  "get_M10 data =
     (case data of [] \<Rightarrow> Inl IndexError
      | _ \<Rightarrow>
        (let beg_timestamp = fst (hd data); end_timestamp = fst (last data) in
         if beg_timestamp + usec_day < end_timestamp then
           (case day_loop (\<lambda>beg_day end_day. get_M10_short_period (slice_ts data beg_day end_day))
                   beg_timestamp end_timestamp [] of
              Inl e \<Rightarrow> Inl e
            | Inr M10s \<Rightarrow> Inr (ts_mean M10s))
         else (case get_M10_short_period data of
                 Inl e \<Rightarrow> Inl e
               | Inr M10 \<Rightarrow> Inr (Timestamp M10))))"

section \<open>Acceleration frames and the magnitude \<^verbatim>\<open>get_r\<close>\<close>

text \<open>
  A response of the database is the list of its rows (timestamp, value). A DataFrame is
  its index and its named columns; a column gives the value at a label of the index, NaN
  where it has none. \<^verbatim>\<open>response2dataframe\<close> makes the frame with no index and no column
  from an empty response, and \<^verbatim>\<open>pd.concat(..., axis=1)\<close> joins the frames on the union
  of their indexes.
\<close>

type_synonym response = "(timestamp \<times> real) list"

record dataframe =
  df_index :: "timestamp list"
  df_columns :: "(string \<times> (timestamp \<Rightarrow> real option)) list"

definition response2dataframe :: "string \<Rightarrow> response \<Rightarrow> dataframe" where
  "response2dataframe col_name data =
     (if data = [] then \<lparr>df_index = [], df_columns = []\<rparr>
      else \<lparr>df_index = map fst data, df_columns = [(col_name, map_of data)]\<rparr>)"

definition union_index :: "timestamp list \<Rightarrow> timestamp list \<Rightarrow> timestamp list" where
  "union_index xs ys = xs @ filter (\<lambda>y. y \<notin> set xs) ys"

definition concat_axis1 :: "dataframe list \<Rightarrow> dataframe" where
  "concat_axis1 dfs =
     \<lparr>df_index = foldl union_index [] (map df_index dfs),
      df_columns = concat (map df_columns dfs)\<rparr>"

definition empty_df :: "timestamp \<Rightarrow> dataframe" where
  \<comment> \<open>one row of NaN at \<open>lower_limit\<close>\<close>
  "empty_df lower_limit =
     \<lparr>df_index = [lower_limit],
      df_columns = [(''lateral'', \<lambda>t. None), (''longitudinal'', \<lambda>t. None),
                    (''vertical'', \<lambda>t. None)]\<rparr>"

definition get_acc_data ::
  "(timestamp \<Rightarrow> timestamp \<Rightarrow> (response \<times> response \<times> response) option) \<Rightarrow>
   timestamp \<Rightarrow> timestamp \<Rightarrow> dataframe" where
  \<comment> \<open>\<open>query_acc_data\<close> is the database; \<open>None\<close> is its answer \<^verbatim>\<open>False\<close>\<close>
  "get_acc_data query_acc_data lower_limit upper_limit =
     (case query_acc_data lower_limit upper_limit of
        None \<Rightarrow> empty_df lower_limit
      | Some (response_lat, response_lon, response_ver) \<Rightarrow>
          (let df_acc = concat_axis1 [response2dataframe ''lateral'' response_lat,
                                      response2dataframe ''longitudinal'' response_lon,
                                      response2dataframe ''vertical'' response_ver] in
           if length (df_columns df_acc) = 0 then empty_df lower_limit else df_acc))"

definition column :: "dataframe \<Rightarrow> string \<Rightarrow> py_exn + (timestamp \<Rightarrow> real option)" where
  \<comment> \<open>\<^verbatim>\<open>acc[name]\<close>\<close>
  "column df name = (case map_of (df_columns df) name of None \<Rightarrow> Inl KeyError | Some c \<Rightarrow> Inr c)"

definition norm3 :: "real option \<Rightarrow> real option \<Rightarrow> real option \<Rightarrow> real option" where
  \<comment> \<open>\<^verbatim>\<open>(x**2 + y**2 + z**2) ** 0.5\<close> on floats: NaN as soon as one of them is\<close>
  "norm3 x y z =
     (case x of None \<Rightarrow> None
      | Some a \<Rightarrow> (case y of None \<Rightarrow> None
         | Some b \<Rightarrow> (case z of None \<Rightarrow> None
            | Some c \<Rightarrow> Some (sqrt (a\<^sup>2 + b\<^sup>2 + c\<^sup>2)))))"

definition get_r :: "dataframe \<Rightarrow> py_exn + real series" where
  "get_r acc =
     (case column acc ''lateral'' of Inl e \<Rightarrow> Inl e
      | Inr lat \<Rightarrow> (case column acc ''longitudinal'' of Inl e \<Rightarrow> Inl e
         | Inr lon \<Rightarrow> (case column acc ''vertical'' of Inl e \<Rightarrow> Inl e
            | Inr ver \<Rightarrow> Inr (map (\<lambda>t. (t, norm3 (lat t) (lon t) (ver t))) (df_index acc)))))"

section \<open>The dispersion \<^verbatim>\<open>get_VMC\<close> and its minute, hour and day loops\<close>

datatype 'a vmc_value = PyNone | Float "'a option"

definition abs_dev :: "'a::linordered_field option \<Rightarrow> 'a option \<Rightarrow> 'a option" where
  \<comment> \<open>an element of \<^verbatim>\<open>(r - r.mean()).abs()\<close>\<close>
  "abs_dev m x =
     (case x of None \<Rightarrow> None
      | Some v \<Rightarrow> (case m of None \<Rightarrow> None | Some mu \<Rightarrow> Some \<bar>v - mu\<bar>))"

definition get_VMC ::
  "('a::linordered_field) series \<Rightarrow> timestamp \<Rightarrow> py_value \<times> 'a vmc_value" where
  \<comment> \<open>the one entry of the dict that \<^verbatim>\<open>get_VMC\<close> returns; the labels of \<open>r\<close> become
      pandas Timestamps (nanoseconds) before they are averaged\<close>
  "get_VMC r first_timestamp =
     (if length r = 0 then (Timestamp first_timestamp, PyNone)
      else
        (let VMC_value = mean (map (abs_dev (mean (map snd r))) (map snd r));
             avg_timestamp = ts_mean (map fst r)
         in (avg_timestamp, Float VMC_value)))"

definition minute_end :: "timestamp \<Rightarrow> timestamp \<Rightarrow> timestamp" where
  \<comment> \<open>the next minute by the clock, or the last label when that comes first\<close>
  "minute_end minute last_ts =
     (let next_minute = replace_minute (minute + usec_minute) in
      if next_minute > last_ts then last_ts else next_minute)"

definition hour_end :: "timestamp \<Rightarrow> timestamp \<Rightarrow> timestamp" where
  "hour_end hour_beg day_end_ts =
     (let hour_end = hour_beg + hours 1 in
      if hour_end > day_end_ts then day_end_ts else hour_end)"

lemma minute_end_gt: "minute < last_ts \<Longrightarrow> minute < minute_end minute last_ts"
proof -
  have "(minute + usec_minute) mod usec_minute < usec_minute"
    by (simp add: usec_minute_def)
  then show "minute < last_ts \<Longrightarrow> minute < minute_end minute last_ts"
    by (simp add: minute_end_def replace_minute_def Let_def)
qed

lemma minute_end_le: "minute < last_ts \<Longrightarrow> minute_end minute last_ts \<le> last_ts"
  by (simp add: minute_end_def Let_def)

lemma hour_end_gt: "hour_beg < day_end_ts \<Longrightarrow> hour_beg < hour_end hour_beg day_end_ts"
  by (simp add: hour_end_def Let_def hours_def usec_hour_def)

lemma hour_end_le: "hour_beg < day_end_ts \<Longrightarrow> hour_end hour_beg day_end_ts \<le> day_end_ts"
  by (simp add: hour_end_def Let_def)

text \<open>
  The minute loop and the hour loop thread the dict \<^verbatim>\<open>vmc_serie\<close> (a state \<open>'s\<close>)
  through a body that is given the bounds of the bucket or of the hour.
\<close>

function minute_loop ::
  "(timestamp \<Rightarrow> timestamp \<Rightarrow> 's \<Rightarrow> 's) \<Rightarrow> timestamp \<Rightarrow> timestamp \<Rightarrow> 's \<Rightarrow> 's" where
  "minute_loop body minute last_ts vmc_serie =
     (if minute < last_ts then
        minute_loop body (minute_end minute last_ts) last_ts
          (body minute (minute_end minute last_ts) vmc_serie)
      else vmc_serie)"
  by pat_completeness auto
termination
  by (relation "measure (\<lambda>(body, minute, last_ts, vmc_serie). nat (last_ts - minute))")
     (auto dest: minute_end_gt)

declare minute_loop.simps [simp del]

function hour_loop ::
  "(timestamp \<Rightarrow> timestamp \<Rightarrow> 's \<Rightarrow> py_exn + 's) \<Rightarrow> timestamp \<Rightarrow> timestamp \<Rightarrow> 's \<Rightarrow>
   py_exn + 's" where
  "hour_loop body hour_beg day_end_ts vmc_serie =
     (if hour_beg < day_end_ts then
        (case body hour_beg (hour_end hour_beg day_end_ts) vmc_serie of
           Inl e \<Rightarrow> Inl e
         | Inr vmc_serie' \<Rightarrow> hour_loop body (hour_end hour_beg day_end_ts) day_end_ts vmc_serie')
      else Inr vmc_serie)"
  by pat_completeness auto
termination
  by (relation "measure (\<lambda>(body, hour_beg, day_end_ts, vmc_serie). nat (day_end_ts - hour_beg))")
     (auto dest: hour_end_gt)

declare hour_loop.simps [simp del]

definition vmc_bucket ::
  "('a::linordered_field) series \<Rightarrow> timestamp \<Rightarrow> timestamp \<Rightarrow>
   (py_value \<times> 'a vmc_value) list \<Rightarrow> (py_value \<times> 'a vmc_value) list" where
  \<comment> \<open>the body of the minute loop: \<^verbatim>\<open>vmc_serie.update(get_VMC(r[minute:next_minute], minute))\<close>\<close>
  "vmc_bucket r minute next_minute vmc_serie =
     (let vmc = get_VMC (slice_ts r minute next_minute) minute in
      AList.update (fst vmc) (snd vmc) vmc_serie)"

definition vmc_hour ::
  "(timestamp \<Rightarrow> timestamp \<Rightarrow> (response \<times> response \<times> response) option) \<Rightarrow>
   timestamp \<Rightarrow> timestamp \<Rightarrow> (py_value \<times> real vmc_value) list \<Rightarrow>
   py_exn + (py_value \<times> real vmc_value) list" where
  \<comment> \<open>the body of the hour loop\<close>
  "vmc_hour query_acc_data hour_beg hour_end_ts vmc_serie =
     (case get_r (get_acc_data query_acc_data hour_beg hour_end_ts) of
        Inl e \<Rightarrow> Inl e
      | Inr r_1hour \<Rightarrow>
          (case r_1hour of
             [] \<Rightarrow> Inl IndexError
           | _ \<Rightarrow> Inr (minute_loop (vmc_bucket r_1hour) hour_beg (fst (last r_1hour)) vmc_serie)))"

fun vmc_days ::
  "(timestamp \<Rightarrow> timestamp \<Rightarrow> (response \<times> response \<times> response) option) \<Rightarrow>
   timestamp \<Rightarrow> timestamp list \<Rightarrow> (py_value \<times> real vmc_value) list \<Rightarrow>
   py_exn + (py_value \<times> real vmc_value) list" where
  "vmc_days query_acc_data date_end [] vmc_serie = Inr vmc_serie"
| "vmc_days query_acc_data date_end (day_beg # days) vmc_serie =
     (case hour_loop (vmc_hour query_acc_data) day_beg (day_end day_beg date_end) vmc_serie of
        Inl e \<Rightarrow> Inl e
      | Inr vmc_serie' \<Rightarrow> vmc_days query_acc_data date_end days vmc_serie')"

definition to_float :: "'a vmc_value \<Rightarrow> 'a option" where
  \<comment> \<open>\<^verbatim>\<open>pd.Series(..., dtype=float)\<close> turns \<^verbatim>\<open>None\<close> into NaN\<close>
  "to_float v = (case v of PyNone \<Rightarrow> None | Float x \<Rightarrow> x)"

definition get_VMC_serie ::
  "(timestamp \<Rightarrow> timestamp \<Rightarrow> (response \<times> response \<times> response) option) \<Rightarrow>
   timestamp \<Rightarrow> timestamp list \<Rightarrow> py_exn + (py_value \<times> real option) list option" where
  \<comment> \<open>\<open>days\<close> is the list of the days chosen, \<open>date_end\<close> the end of the recording;
      with no day the method returns \<^verbatim>\<open>None\<close>\<close>
  "get_VMC_serie query_acc_data date_end days =
     (if days = [] then Inr None
      else (case vmc_days query_acc_data date_end days [] of
              Inl e \<Rightarrow> Inl e
            | Inr vmc_serie \<Rightarrow> Inr (Some (map (\<lambda>(k, v). (k, to_float v)) vmc_serie))))"

section \<open>The bounds that a loop visits\<close>

text \<open>
  \<open>chain cur fin segs\<close>: the pairs \<open>segs\<close> are the bounds of the iterations of a loop
  whose cursor starts at \<open>cur\<close> and that runs while the cursor is before \<open>fin\<close>. Each
  iteration starts where the one before ended, ends strictly later and not after \<open>fin\<close>,
  and after the last one the cursor has reached \<open>fin\<close>.
\<close>

fun chain :: "timestamp \<Rightarrow> timestamp \<Rightarrow> (timestamp \<times> timestamp) list \<Rightarrow> bool" where
  "chain cur fin [] = (fin \<le> cur)"
| "chain cur fin (seg # segs) =
     (fst seg = cur \<and> cur < snd seg \<and> snd seg \<le> fin \<and> chain (snd seg) fin segs)"

section \<open>The mean absolute deviation, in the words of the specification\<close>


section \<open>Series for the scenarios\<close>

definition hourly :: "timestamp \<Rightarrow> rat list \<Rightarrow> rat series" where
  \<comment> \<open>one sample an hour with the values given, the first at \<open>t0\<close>\<close>
  "hourly t0 vs = map (\<lambda>(k, v). (t0 + hours (int k), Some v)) (enumerate 0 vs)"

definition three_noons :: "rat series" where
  \<comment> \<open>a sample at a noon, at the next midnight and at the next noon\<close>
  "three_noons = [(hours 12, Some 1), (hours 24, Some 2), (hours 36, Some 3)]"

definition three_seconds :: "rat series" where
  \<comment> \<open>samples 10, 60 and 90 seconds after a minute mark\<close>
  "three_seconds = [(10000000, Some 1), (60000000, Some 2), (90000000, Some 3)]"

definition shift :: "int \<Rightarrow> 'a series \<Rightarrow> 'a series" where
  \<comment> \<open>the same samples, \<open>k\<close> microseconds later\<close>
  "shift k s = map (\<lambda>p. (fst p + k, snd p)) s"




section \<open>The span guard: present in \<^verbatim>\<open>get_L5\<close>, absent in \<^verbatim>\<open>get_M10\<close>\<close>

text \<open>
  C10. On a series that spans at most one day and less than ten hours, \<^verbatim>\<open>get_M10\<close>
  checks no span: the window of the first label already passes the last label, the loop
  leaves with no average, and \<^verbatim>\<open>max\<close> of the empty dict raises ValueError. No timestamp
  and no sentinel is returned.
\<close>

theorem get_M10_short_span_raises:
  assumes "data \<noteq> []"
    and "fst (last data) - fst (hd data) \<le> usec_day"
    and "fst (last data) - fst (hd data) < hours 10"
  shows "get_M10 data = Inl ValueError"
proof -
  from assms(1) obtain p ps where data: "data = p # ps"
    by (cases data) auto
  have no_chunk: "\<not> fst (hd data) + usec_day < fst (last data)"
    using assms(2) by simp
  have "fst (last data) < fst p + hours 10"
    using assms(3) data by simp
  then have "window_averages (hours 10) (hours 5) data = []"
    unfolding window_averages_def data by (simp del: last.simps)
  then have "get_M10_short_period data = Inl ValueError"
    by (simp add: get_M10_short_period_def py_max_key_def)
  with no_chunk show ?thesis
    unfolding get_M10_def data by (simp del: last.simps)
qed

theorem get_M10_short_span_raises_witness:
  "hourly 0 [1, 2] \<noteq> []
   \<and> fst (last (hourly 0 [1, 2])) - fst (hd (hourly 0 [1, 2])) \<le> usec_day
   \<and> fst (last (hourly 0 [1, 2])) - fst (hd (hourly 0 [1, 2])) < hours 10
   \<and> get_M10 (hourly 0 [1, 2]) = Inl ValueError"
proof -
  have a: "hourly 0 [1, 2] \<noteq> []"
    by (simp add: hourly_def)
  have b: "fst (last (hourly 0 [1, 2])) - fst (hd (hourly 0 [1, 2])) \<le> usec_day"
    by (simp add: hourly_def hours_def usec_hour_def usec_day_def)
  have c: "fst (last (hourly 0 [1, 2])) - fst (hd (hourly 0 [1, 2])) < hours 10"
    by (simp add: hourly_def hours_def usec_hour_def)
  from a b c get_M10_short_span_raises [OF a b c] show ?thesis
    by simp
qed

text \<open>
  C3. Two samples one hour apart: \<^verbatim>\<open>get_L5\<close> answers \<^verbatim>\<open>False\<close> through its guard, while
  \<^verbatim>\<open>get_M10\<close> raises ValueError on the same series instead of returning a value.
\<close>

theorem get_M10_raises_where_get_L5_guards:
  "get_L5 (hourly 0 [1, 2]) = Inr PyFalse \<and> get_M10 (hourly 0 [1, 2]) = Inl ValueError"
  by code_simp

text \<open>
  C2. Twenty-seven hourly samples from a midnight on span 26 hours. The second day
  segment holds the labels of hours 24 to 26 only, no window of five hours fits in it, and
  \<^verbatim>\<open>min\<close> of the empty dict raises ValueError: \<^verbatim>\<open>get_L5\<close> returns no timestamp.
\<close>

theorem get_L5_short_last_day_raises:
  "hours 5 \<le> fst (last (hourly 0 (replicate 27 1))) - fst (hd (hourly 0 (replicate 27 1)))
   \<and> get_L5 (hourly 0 (replicate 27 1)) = Inl ValueError"
  by code_simp

text \<open>
  C4. The scenario of six hourly samples 10, 10, 10, 1, 1, 1 from 2024-01-01T00:00
  (1704067200 seconds after the epoch). The window that starts at 01:00 would end at 06:00,
  after the last label 05:00, so it is never evaluated: the result is not 03:30.
\<close>

theorem scenario_six_samples_not_0330:
  "get_L5 (hourly 1704067200000000 [10, 10, 10, 1, 1, 1])
     \<noteq> Inr (Timestamp (1704067200000000 + hours 3 + half_hours 1))"
  by code_simp

text \<open>
  C4, as amended. The only window evaluated starts at 00:00; it holds the six samples
  (the label 05:00 included), its mean is 33/6, and \<^verbatim>\<open>get_L5\<close> returns its mid-point
  02:30.
\<close>

theorem scenario_six_samples_0230:
  "window_averages (hours 5) (half_hours 5) (hourly 1704067200000000 [10, 10, 10, 1, 1, 1])
     = [(1704067200000000 + hours 2 + half_hours 1, Some (33 / 6))]
   \<and> get_L5 (hourly 1704067200000000 [10, 10, 10, 1, 1, 1])
     = Inr (Timestamp (1704067200000000 + hours 2 + half_hours 1))"
  by code_simp

section \<open>The dispersion of one bucket\<close>














section \<open>The magnitude of channels that do not match\<close>

lemma union_index_Nil [simp]: "union_index [] ys = ys"
  by (simp add: union_index_def)

lemma set_union_index [simp]: "set (union_index xs ys) = set xs \<union> set ys"
  by (auto simp: union_index_def)

lemma get_r_of_channels:
  assumes "lat \<noteq> []" and "lon \<noteq> []" and "ver \<noteq> []"
  shows "get_r (get_acc_data (\<lambda>lo hi. Some (lat, lon, ver)) lower_limit upper_limit)
     = Inr (map (\<lambda>t. (t, norm3 (map_of lat t) (map_of lon t) (map_of ver t)))
              (union_index (union_index (map fst lat) (map fst lon)) (map fst ver)))"
  using assms
  by (simp add: get_r_def get_acc_data_def concat_axis1_def response2dataframe_def column_def)

text \<open>
  C8, as amended. \<^verbatim>\<open>get_r\<close> validates nothing. When each of the three channels has at
  least one row, it returns a series over the union of the timestamps of the channels and
  raises no error: at a timestamp that a channel lacks the magnitude is NaN, and at a
  timestamp that the three channels share it is the Euclidean norm.
\<close>

theorem get_r_no_validation:
  assumes "lat \<noteq> []" and "lon \<noteq> []" and "ver \<noteq> []"
  shows "\<exists>r. get_r (get_acc_data (\<lambda>lo hi. Some (lat, lon, ver)) lower_limit upper_limit) = Inr r
     \<and> set (map fst r) = set (map fst lat) \<union> set (map fst lon) \<union> set (map fst ver)
     \<and> (\<forall>t \<in> set (map fst r).
           (map_of lat t = None \<or> map_of lon t = None \<or> map_of ver t = None \<longrightarrow> (t, None) \<in> set r)
         \<and> (\<forall>a b c. map_of lat t = Some a \<and> map_of lon t = Some b \<and> map_of ver t = Some c
               \<longrightarrow> (t, Some (sqrt (a\<^sup>2 + b\<^sup>2 + c\<^sup>2))) \<in> set r))"
proof -
  let ?idx = "union_index (union_index (map fst lat) (map fst lon)) (map fst ver)"
  let ?r = "map (\<lambda>t. (t, norm3 (map_of lat t) (map_of lon t) (map_of ver t))) ?idx"
  have r: "get_r (get_acc_data (\<lambda>lo hi. Some (lat, lon, ver)) lower_limit upper_limit) = Inr ?r"
    using assms by (rule get_r_of_channels)
  have idx: "set (map fst ?r) = set (map fst lat) \<union> set (map fst lon) \<union> set (map fst ver)"
    by (simp add: comp_def)
  have rows: "(t, norm3 (map_of lat t) (map_of lon t) (map_of ver t)) \<in> set ?r"
    if "t \<in> set (map fst ?r)" for t
    using that by (auto simp: comp_def)
  have "(t, None) \<in> set ?r"
    if "t \<in> set (map fst ?r)"
      and "map_of lat t = None \<or> map_of lon t = None \<or> map_of ver t = None" for t
    using rows [OF that(1)] that(2) by (auto simp: norm3_def split: option.splits)
  moreover have "(t, Some (sqrt (a\<^sup>2 + b\<^sup>2 + c\<^sup>2))) \<in> set ?r"
    if "t \<in> set (map fst ?r)"
      and "map_of lat t = Some a \<and> map_of lon t = Some b \<and> map_of ver t = Some c" for t a b c
    using rows [OF that(1)] that(2) by (simp add: norm3_def)
  ultimately show ?thesis
    using r idx by blast
qed

lemma sqrt25: "sqrt 25 = 5"
  using real_sqrt_abs [of 5] by simp

text \<open>
  C8. Three channels whose timestamps do not match (the longitudinal channel has a row
  at 1 that the others lack) are not rejected: \<^verbatim>\<open>get_r\<close> returns a series, with NaN at
  the unmatched timestamp.
\<close>

theorem get_r_unmatched_counterexample:
  "set (map fst [(0, 4), (1, 1 :: real)]) \<noteq> set (map fst [(0 :: timestamp, 3 :: real)])
   \<and> get_r (get_acc_data (\<lambda>lo hi. Some ([(0, 3)], [(0, 4), (1, 1)], [(0, 0)])) 0 10)
       = Inr [(0, Some 5), (1, None)]"
  by (simp add: get_r_def get_acc_data_def concat_axis1_def response2dataframe_def union_index_def
    column_def norm3_def sqrt25)

theorem get_r_no_validation_witness:
  "[(0, 3)] \<noteq> ([] :: response) \<and> [(0, 4), (1, 1)] \<noteq> ([] :: response) \<and> [(0, 0)] \<noteq> ([] :: response)
   \<and> (\<exists>r. get_r (get_acc_data (\<lambda>lo hi. Some ([(0, 3)], [(0, 4), (1, 1)], [(0, 0)])) 0 10) = Inr r
        \<and> (1, None) \<in> set r \<and> (0, Some (sqrt (3\<^sup>2 + 4\<^sup>2 + 0\<^sup>2))) \<in> set r)"
proof -
  have a: "[(0, 3)] \<noteq> ([] :: response)" and b: "[(0, 4), (1, 1)] \<noteq> ([] :: response)"
    and c: "[(0, 0)] \<noteq> ([] :: response)"
    by simp_all
  from get_r_no_validation [OF a b c, of 0 10]
  obtain r where r: "get_r (get_acc_data (\<lambda>lo hi. Some ([(0, 3)], [(0, 4), (1, 1)], [(0, 0)])) 0 10) = Inr r"
    and idx: "set (map fst r) = set (map fst [(0 :: timestamp, 3 :: real)])
        \<union> set (map fst [(0 :: timestamp, 4 :: real), (1, 1)]) \<union> set (map fst [(0 :: timestamp, 0 :: real)])"
    and rows: "\<forall>t \<in> set (map fst r).
           (map_of [(0, 3 :: real)] t = None \<or> map_of [(0, 4), (1, 1 :: real)] t = None
              \<or> map_of [(0, 0 :: real)] t = None \<longrightarrow> (t, None) \<in> set r)
         \<and> (\<forall>a b c. map_of [(0, 3 :: real)] t = Some a \<and> map_of [(0, 4), (1, 1 :: real)] t = Some b
              \<and> map_of [(0, 0 :: real)] t = Some c
               \<longrightarrow> (t, Some (sqrt (a\<^sup>2 + b\<^sup>2 + c\<^sup>2))) \<in> set r)"
    by blast
  have in1: "1 \<in> set (map fst r)" and in0: "0 \<in> set (map fst r)"
    unfolding idx by simp_all
  from rows in1 have "(1, None) \<in> set r"
    by fastforce
  moreover from rows in0 have "(0, Some (sqrt (3\<^sup>2 + 4\<^sup>2 + 0\<^sup>2))) \<in> set r"
    by fastforce
  ultimately show ?thesis
    using r by blast
qed

section \<open>The cursors of the day, hour and minute loops\<close>

lemma chain_length: "chain cur fin segs \<Longrightarrow> int (length segs) \<le> max 0 (fin - cur)"
proof (induction segs arbitrary: cur)
  case Nil
  then show ?case by simp
next
  case (Cons seg segs)
  from Cons.prems have "cur < snd seg" and "snd seg \<le> fin" and "chain (snd seg) fin segs"
    by simp_all
  with Cons.IH [of "snd seg"] show ?case
    by simp
qed

lemma chain_last: "chain cur fin segs \<Longrightarrow> segs \<noteq> [] \<Longrightarrow> snd (last segs) = fin"
  by (induction segs arbitrary: cur) (auto split: if_splits)

lemma day_loop_chain:
  "\<exists>segs. chain beg_day end_timestamp segs
     \<and> day_loop (\<lambda>b e. Inr (f b e)) beg_day end_timestamp acc
         = Inr (acc @ map (\<lambda>(b, e). f b e) segs)"
proof (induction "\<lambda>b e. Inr (f b e) :: py_exn + 'a" beg_day end_timestamp acc rule: day_loop.induct)
  case (1 beg_day end_timestamp acc)
  show ?case
  proof (cases "beg_day < end_timestamp")
    case False
    then have "chain beg_day end_timestamp []"
      by simp
    moreover have "day_loop (\<lambda>b e. Inr (f b e)) beg_day end_timestamp acc = Inr acc"
      using False by (simp add: day_loop.simps)
    ultimately show ?thesis
      by (metis (no_types, lifting) append_Nil2 list.simps(8))
  next
    case True
    let ?e = "day_end beg_day end_timestamp"
    from 1 [OF True refl] obtain segs where segs: "chain ?e end_timestamp segs"
      and loop: "day_loop (\<lambda>b e. Inr (f b e)) ?e end_timestamp (acc @ [f beg_day ?e])
         = Inr ((acc @ [f beg_day ?e]) @ map (\<lambda>(b, e). f b e) segs)"
      by blast
    have "chain beg_day end_timestamp ((beg_day, ?e) # segs)"
      using True segs day_end_gt day_end_le by simp
    moreover have "day_loop (\<lambda>b e. Inr (f b e)) beg_day end_timestamp acc
         = Inr (acc @ map (\<lambda>(b, e). f b e) ((beg_day, ?e) # segs))"
      using True loop by (subst day_loop.simps) simp
    ultimately show ?thesis
      by blast
  qed
qed

lemma hour_loop_chain:
  "\<exists>segs. chain hour_beg day_end_ts segs
     \<and> hour_loop (\<lambda>b e acc. Inr (acc @ [f b e])) hour_beg day_end_ts acc
         = Inr (acc @ map (\<lambda>(b, e). f b e) segs)"
proof (induction "\<lambda>b e acc. Inr (acc @ [f b e]) :: py_exn + 'a list" hour_beg day_end_ts acc
    rule: hour_loop.induct)
  case (1 hour_beg day_end_ts acc)
  show ?case
  proof (cases "hour_beg < day_end_ts")
    case False
    then have "chain hour_beg day_end_ts []"
      by simp
    moreover have "hour_loop (\<lambda>b e acc. Inr (acc @ [f b e])) hour_beg day_end_ts acc = Inr acc"
      using False by (simp add: hour_loop.simps)
    ultimately show ?thesis
      by (metis (no_types, lifting) append_Nil2 list.simps(8))
  next
    case True
    let ?e = "hour_end hour_beg day_end_ts"
    from 1 [OF True refl] obtain segs where segs: "chain ?e day_end_ts segs"
      and loop: "hour_loop (\<lambda>b e acc. Inr (acc @ [f b e])) ?e day_end_ts (acc @ [f hour_beg ?e])
         = Inr ((acc @ [f hour_beg ?e]) @ map (\<lambda>(b, e). f b e) segs)"
      by blast
    have "chain hour_beg day_end_ts ((hour_beg, ?e) # segs)"
      using True segs hour_end_gt hour_end_le by simp
    moreover have "hour_loop (\<lambda>b e acc. Inr (acc @ [f b e])) hour_beg day_end_ts acc
         = Inr (acc @ map (\<lambda>(b, e). f b e) ((hour_beg, ?e) # segs))"
      using True loop by (subst hour_loop.simps) simp
    ultimately show ?thesis
      by blast
  qed
qed

lemma minute_loop_chain:
  "\<exists>segs. chain minute last_ts segs
     \<and> minute_loop (\<lambda>b e acc. acc @ [f b e]) minute last_ts acc
         = acc @ map (\<lambda>(b, e). f b e) segs"
proof (induction "\<lambda>b e acc. acc @ [f b e] :: 'a list" minute last_ts acc
    rule: minute_loop.induct)
  case (1 minute last_ts acc)
  show ?case
  proof (cases "minute < last_ts")
    case False
    then have "chain minute last_ts []"
      by simp
    moreover have "minute_loop (\<lambda>b e acc. acc @ [f b e]) minute last_ts acc = acc"
      using False by (simp add: minute_loop.simps)
    ultimately show ?thesis
      by (metis (no_types, lifting) append_Nil2 list.simps(8))
  next
    case True
    let ?e = "minute_end minute last_ts"
    from 1 [OF True] obtain segs where segs: "chain ?e last_ts segs"
      and loop: "minute_loop (\<lambda>b e acc. acc @ [f b e]) ?e last_ts (acc @ [f minute ?e])
         = (acc @ [f minute ?e]) @ map (\<lambda>(b, e). f b e) segs"
      by blast
    have "chain minute last_ts ((minute, ?e) # segs)"
      using True segs minute_end_gt minute_end_le by simp
    moreover have "minute_loop (\<lambda>b e acc. acc @ [f b e]) minute last_ts acc
         = acc @ map (\<lambda>(b, e). f b e) ((minute, ?e) # segs)"
      using True loop by (subst minute_loop.simps) simp
    ultimately show ?thesis
      by blast
  qed
qed


lemma chain_before:
  "chain cur fin segs \<Longrightarrow> t < cur \<Longrightarrow>
   filter (\<lambda>seg. fst seg \<le> t \<and> t \<le> snd seg) segs = [] \<and> t \<notin> set (map fst segs)"
proof (induction segs arbitrary: cur)
  case Nil
  then show ?case by simp
next
  case (Cons seg segs)
  from Cons.prems have "fst seg = cur" and "cur < snd seg" and "chain (snd seg) fin segs"
    by simp_all
  moreover from this Cons.prems(2) have "t < snd seg"
    by simp
  ultimately show ?case
    using Cons.IH [of "snd seg"] Cons.prems(2) by simp
qed

lemma chain_count:
  "chain cur fin segs \<Longrightarrow> segs \<noteq> [] \<Longrightarrow> cur \<le> t \<Longrightarrow> t \<le> fin \<Longrightarrow>
   length (filter (\<lambda>seg. fst seg \<le> t \<and> t \<le> snd seg) segs)
     = (if t \<in> set (map fst (tl segs)) then 2 else 1)"
proof (induction segs arbitrary: cur)
  case Nil
  then show ?case by simp
next
  case (Cons seg segs)
  from Cons.prems(1) have seg: "fst seg = cur" "cur < snd seg" "snd seg \<le> fin"
    and rest: "chain (snd seg) fin segs"
    by simp_all
  show ?case
  proof (cases "segs = []")
    case True
    with rest have "snd seg = fin"
      using seg(3) by simp
    with True seg Cons.prems show ?thesis
      by simp
  next
    case False
    then obtain s2 segs' where segs: "segs = s2 # segs'"
      by (cases segs) auto
    from rest segs have s2: "fst s2 = snd seg" "snd seg < snd s2" "chain (snd s2) fin segs'"
      by simp_all
    consider (before) "t < snd seg" | (on) "t = snd seg" | (after) "snd seg < t"
      by linarith
    then show ?thesis
    proof cases
      case before
      from chain_before [OF rest before] seg Cons.prems(3) before show ?thesis
        by simp
    next
      case on
      from chain_before [OF s2(3), of t] s2(2) on
      have "t \<notin> set (map fst (tl segs))"
        by (simp add: segs)
      with Cons.IH [OF rest False] on Cons.prems(4)
      have "length (filter (\<lambda>seg. fst seg \<le> t \<and> t \<le> snd seg) segs) = 1"
        by simp
      moreover have "t \<in> set (map fst segs)"
        using s2(1) on by (simp add: segs)
      ultimately show ?thesis
        using seg Cons.prems(3) on by simp
    next
      case after
      then have "t \<in> set (map fst segs) \<longleftrightarrow> t \<in> set (map fst (tl segs))"
        using s2(1) by (auto simp: segs)
      with Cons.IH [OF rest False] after Cons.prems(4) show ?thesis
        by simp
    qed
  qed
qed

lemma in_slice_ts: "p \<in> set (slice_ts s lo hi) \<longleftrightarrow> p \<in> set s \<and> lo \<le> fst p \<and> fst p \<le> hi"
  by (auto simp: slice_ts_def)

lemma chain_slices_count:
  assumes "chain cur fin segs" and "cur < fin" and "p \<in> set s" and "cur \<le> fst p" and "fst p \<le> fin"
  shows "length (filter (\<lambda>sl. p \<in> set sl) (map (\<lambda>(b, e). slice_ts s b e) segs))
     = (if fst p \<in> set (map fst (tl segs)) then 2 else 1)"
proof -
  from assms(1,2) have ne: "segs \<noteq> []"
    by auto
  have "(\<lambda>sl. p \<in> set sl) \<circ> (\<lambda>(b, e). slice_ts s b e)
      = (\<lambda>seg. fst seg \<le> fst p \<and> fst p \<le> snd seg)"
    using assms(3) by (auto simp: fun_eq_iff in_slice_ts)
  then show ?thesis
    using chain_count [OF assms(1) ne assms(4,5)] by (simp add: filter_map)
qed

text \<open>
  C9. Each loop is a total function: its definition is accepted with a measure (the
  distance from the cursor to the end) that every iteration decreases. The bounds that the
  day loop of \<^verbatim>\<open>get_L5\<close> and \<^verbatim>\<open>get_M10\<close> and the hour and minute loops of
  \<^verbatim>\<open>get_VMC_serie\<close> visit form a chain: every iteration ends strictly after its start,
  also when the end is clipped, the next one starts there, the last one ends at the end of
  the series, and there are at most as many iterations as microseconds between the start
  and the end.
\<close>

theorem loops_single_pass:
  "(\<exists>segs. day_loop (\<lambda>b e. Inr (b, e)) beg_day end_timestamp [] = Inr segs
       \<and> chain beg_day end_timestamp segs
       \<and> int (length segs) \<le> max 0 (end_timestamp - beg_day))
   \<and> (\<exists>segs. hour_loop (\<lambda>b e acc. Inr (acc @ [(b, e)])) hour_beg day_end_ts [] = Inr segs
       \<and> chain hour_beg day_end_ts segs
       \<and> int (length segs) \<le> max 0 (day_end_ts - hour_beg))
   \<and> (\<exists>segs. minute_loop (\<lambda>b e acc. acc @ [(b, e)]) minute last_ts [] = segs
       \<and> chain minute last_ts segs
       \<and> int (length segs) \<le> max 0 (last_ts - minute))"
proof (intro conjI)
  from day_loop_chain [of beg_day end_timestamp Pair "[]"]
  show "\<exists>segs. day_loop (\<lambda>b e. Inr (b, e)) beg_day end_timestamp [] = Inr segs
       \<and> chain beg_day end_timestamp segs
       \<and> int (length segs) \<le> max 0 (end_timestamp - beg_day)"
    using chain_length by fastforce
next
  from hour_loop_chain [of hour_beg day_end_ts Pair "[]"]
  show "\<exists>segs. hour_loop (\<lambda>b e acc. Inr (acc @ [(b, e)])) hour_beg day_end_ts [] = Inr segs
       \<and> chain hour_beg day_end_ts segs
       \<and> int (length segs) \<le> max 0 (day_end_ts - hour_beg)"
    using chain_length by fastforce
next
  from minute_loop_chain [of minute last_ts Pair "[]"]
  show "\<exists>segs. minute_loop (\<lambda>b e acc. acc @ [(b, e)]) minute last_ts [] = segs
       \<and> chain minute last_ts segs
       \<and> int (length segs) \<le> max 0 (last_ts - minute)"
    using chain_length by fastforce
qed


theorem loops_single_pass_witness:
  "day_loop (\<lambda>b e. Inr (b, e)) (hours 22) (hours 51) []
      = Inr [(hours 22, hours 24), (hours 24, hours 48), (hours 48, hours 51)]
   \<and> chain (hours 22) (hours 51) [(hours 22, hours 24), (hours 24, hours 48), (hours 48, hours 51)]"
proof -
  have tr: "day_loop (\<lambda>b e. Inr (b, e)) (hours 22) (hours 51) []
      = Inr [(hours 22, hours 24), (hours 24, hours 48), (hours 48, hours 51)]"
    by code_simp
  from loops_single_pass [of "hours 22" "hours 51"] tr show ?thesis
    by auto
qed

text \<open>
  C5. A sample on a boundary belongs to two partitions: the sample at midnight is in
  the slice of the day before and in the slice of the day after, and the sample on the
  minute mark is in two buckets.
\<close>

theorem boundary_sample_in_two_partitions:
  "day_loop (\<lambda>b e. Inr (slice_ts three_noons b e)) (hours 12) (hours 36) []
     = Inr [[(hours 12, Some 1), (hours 24, Some 2)], [(hours 24, Some 2), (hours 36, Some 3)]]
   \<and> minute_loop (\<lambda>b e acc. acc @ [slice_ts three_seconds b e]) 0 90000000 []
     = [[(10000000, Some 1), (60000000, Some 2)], [(60000000, Some 2), (90000000, Some 3)]]"
  by code_simp

text \<open>
  C5, as amended. The day slices of \<^verbatim>\<open>get_L5\<close> and \<^verbatim>\<open>get_M10\<close> and the minute buckets
  of \<^verbatim>\<open>get_VMC_serie\<close> are the closed intervals between the successive cursors, from the
  start to the end of the loop. A sample between the start and the end lies in exactly one
  of them, except a sample whose timestamp is an inner boundary (a midnight or a minute
  mark where the loop cuts): that one lies in exactly two, the partitions on both sides.
\<close>

theorem partitions_share_boundaries:
  assumes "beg_timestamp < end_timestamp" and "p \<in> set data"
    and "beg_timestamp \<le> fst p" and "fst p \<le> end_timestamp"
    and "hour_beg < last_ts" and "q \<in> set r_1hour"
    and "hour_beg \<le> fst q" and "fst q \<le> last_ts"
  shows "(\<exists>segs slices. chain beg_timestamp end_timestamp segs
           \<and> day_loop (\<lambda>b e. Inr (slice_ts data b e)) beg_timestamp end_timestamp [] = Inr slices
           \<and> slices = map (\<lambda>(b, e). slice_ts data b e) segs
           \<and> length (filter (\<lambda>sl. p \<in> set sl) slices)
               = (if fst p \<in> set (map fst (tl segs)) then 2 else 1))
       \<and> (\<exists>segs buckets. chain hour_beg last_ts segs
           \<and> minute_loop (\<lambda>b e acc. acc @ [slice_ts r_1hour b e]) hour_beg last_ts [] = buckets
           \<and> buckets = map (\<lambda>(b, e). slice_ts r_1hour b e) segs
           \<and> length (filter (\<lambda>sl. q \<in> set sl) buckets)
               = (if fst q \<in> set (map fst (tl segs)) then 2 else 1))"
proof
  from day_loop_chain [of beg_timestamp end_timestamp "slice_ts data" "[]"]
  obtain segs where segs: "chain beg_timestamp end_timestamp segs"
    and loop: "day_loop (\<lambda>b e. Inr (slice_ts data b e)) beg_timestamp end_timestamp []
        = Inr (map (\<lambda>(b, e). slice_ts data b e) segs)"
    by auto
  from chain_slices_count [OF segs assms(1-4)] segs loop
  show "\<exists>segs slices. chain beg_timestamp end_timestamp segs
           \<and> day_loop (\<lambda>b e. Inr (slice_ts data b e)) beg_timestamp end_timestamp [] = Inr slices
           \<and> slices = map (\<lambda>(b, e). slice_ts data b e) segs
           \<and> length (filter (\<lambda>sl. p \<in> set sl) slices)
               = (if fst p \<in> set (map fst (tl segs)) then 2 else 1)"
    by blast
next
  from minute_loop_chain [of hour_beg last_ts "slice_ts r_1hour" "[]"]
  obtain segs where segs: "chain hour_beg last_ts segs"
    and loop: "minute_loop (\<lambda>b e acc. acc @ [slice_ts r_1hour b e]) hour_beg last_ts []
        = map (\<lambda>(b, e). slice_ts r_1hour b e) segs"
    by auto
  from chain_slices_count [OF segs assms(5-8)] segs loop
  show "\<exists>segs buckets. chain hour_beg last_ts segs
           \<and> minute_loop (\<lambda>b e acc. acc @ [slice_ts r_1hour b e]) hour_beg last_ts [] = buckets
           \<and> buckets = map (\<lambda>(b, e). slice_ts r_1hour b e) segs
           \<and> length (filter (\<lambda>sl. q \<in> set sl) buckets)
               = (if fst q \<in> set (map fst (tl segs)) then 2 else 1)"
    by blast
qed

theorem partitions_share_boundaries_witness:
  "hours 12 < hours 36 \<and> (hours 24, Some 2) \<in> set three_noons
   \<and> hours 12 \<le> fst (hours 24, Some (2 :: rat)) \<and> fst (hours 24, Some (2 :: rat)) \<le> hours 36
   \<and> (0 :: timestamp) < 90000000 \<and> (10000000, Some 1) \<in> set three_seconds
   \<and> 0 \<le> fst (10000000 :: timestamp, Some (1 :: rat))
   \<and> fst (10000000 :: timestamp, Some (1 :: rat)) \<le> 90000000
   \<and> (\<exists>segs slices. chain (hours 12) (hours 36) segs
           \<and> day_loop (\<lambda>b e. Inr (slice_ts three_noons b e)) (hours 12) (hours 36) [] = Inr slices
           \<and> slices = map (\<lambda>(b, e). slice_ts three_noons b e) segs
           \<and> length (filter (\<lambda>sl. (hours 24, Some 2) \<in> set sl) slices)
               = (if fst (hours 24, Some (2 :: rat)) \<in> set (map fst (tl segs)) then 2 else 1))
   \<and> (\<exists>segs buckets. chain 0 90000000 segs
           \<and> minute_loop (\<lambda>b e acc. acc @ [slice_ts three_seconds b e]) 0 90000000 [] = buckets
           \<and> buckets = map (\<lambda>(b, e). slice_ts three_seconds b e) segs
           \<and> length (filter (\<lambda>sl. (10000000, Some 1) \<in> set sl) buckets)
               = (if fst (10000000 :: timestamp, Some (1 :: rat)) \<in> set (map fst (tl segs))
                  then 2 else 1))"
proof -
  have a: "hours 12 < hours 36"
    by (simp add: hours_def usec_hour_def)
  have b: "(hours 24, Some 2) \<in> set three_noons"
    by (simp add: three_noons_def)
  have c: "hours 12 \<le> fst (hours 24, Some (2 :: rat))"
    and d: "fst (hours 24, Some (2 :: rat)) \<le> hours 36"
    by (simp_all add: hours_def usec_hour_def)
  have e: "(0 :: timestamp) < 90000000"
    by simp
  have f: "(10000000, Some 1) \<in> set three_seconds"
    by (simp add: three_seconds_def)
  have g: "0 \<le> fst (10000000 :: timestamp, Some (1 :: rat))"
    and h: "fst (10000000 :: timestamp, Some (1 :: rat)) \<le> 90000000"
    by simp_all
  from partitions_share_boundaries [OF a b c d e f g h] a b c d e f g h
  show ?thesis
    by (intro conjI) blast+
qed

section \<open>The windows of the scanner\<close>

lemma window_loop_other_key:
  "k \<notin> (\<lambda>x. x + mid) ` set idx \<Longrightarrow>
   map_of (window_loop dur mid s last_ts idx avgs) k = map_of avgs k"
proof (induction idx arbitrary: avgs)
  case Nil
  then show ?case by simp
next
  case (Cons b rest)
  then show ?case
    by (simp add: Let_def update_conv')
qed

lemma window_loop_entry:
  assumes "sorted_wrt (<) idx" and "t \<in> set idx" and "t + dur \<le> last_ts"
  shows "map_of (window_loop dur mid s last_ts idx avgs) (t + mid)
     = Some (mean (map snd (slice_ts s t (t + dur))))"
  using assms
proof (induction idx arbitrary: avgs)
  case Nil
  then show ?case by simp
next
  case (Cons b rest)
  from Cons.prems(1) have later: "\<forall>x \<in> set rest. b < x" and sorted_rest: "sorted_wrt (<) rest"
    by simp_all
  from Cons.prems(2) later have "b \<le> t"
    by auto
  with Cons.prems(3) have fits: "\<not> last_ts < b + dur"
    by simp
  show ?case
  proof (cases "t = b")
    case True
    from later have key: "b + mid \<notin> (\<lambda>x. x + mid) ` set rest"
      by auto
    have "map_of (window_loop dur mid s last_ts rest (AList.update (b + mid) v avgs)) (b + mid)
        = map_of (AList.update (b + mid) v avgs) (b + mid)" for v
      by (rule window_loop_other_key [OF key])
    with fits True show ?thesis
      by (simp add: Let_def update_conv')
  next
    case False
    with Cons.prems(2) have "t \<in> set rest"
      by simp
    from Cons.IH [OF sorted_rest this Cons.prems(3)] fits show ?thesis
      by (simp add: Let_def)
  qed
qed

lemma window_averages_entry:
  assumes "sorted_wrt (<) (map fst s)" and "t \<in> set (map fst s)" and "t + dur \<le> fst (last s)"
  shows "map_of (window_averages dur mid s) (t + mid)
     = Some (mean (map snd (filter (\<lambda>p. t \<le> fst p \<and> fst p \<le> t + dur) s)))"
proof -
  from assms(2) have "s \<noteq> []"
    by auto
  then have "window_averages dur mid s = window_loop dur mid s (fst (last s)) (map fst s) []"
    by (cases s) (simp_all add: window_averages_def)
  with window_loop_entry [OF assms] show ?thesis
    by (simp add: slice_ts_def)
qed

text \<open>
  C1. Two samples five hours apart, 0 and 10: the window anchored at the first one ends
  on the second one and includes it (mean 5); the mean over the half-open interval would
  be 0.
\<close>

theorem window_half_open_counterexample:
  "map_of (window_averages (hours 5) (half_hours 5) [(0, Some 0), (hours 5, Some (10 :: rat))])
      (0 + half_hours 5)
     \<noteq> Some (mean (map snd (filter (\<lambda>p. 0 \<le> fst p \<and> fst p < 0 + hours 5)
                 [(0, Some 0), (hours 5, Some (10 :: rat))])))"
  by code_simp

text \<open>
  C1, as amended. For a series with strictly increasing timestamps and an anchor \<open>t\<close>
  of it with \<open>t + duration\<close> not after the last timestamp, the scanner stores, under the
  mid-point of the window, the mean of the samples whose timestamps lie in the closed
  interval from \<open>t\<close> to \<open>t + duration\<close>: a sample at \<open>t + duration\<close> is included
  (five hours in \<^verbatim>\<open>get_L5_short_period\<close>, ten in \<^verbatim>\<open>get_M10_short_period\<close>).
\<close>

theorem window_mean_closed_interval:
  assumes "sorted_wrt (<) (map fst s)" and "t \<in> set (map fst s)"
  shows "(t + hours 5 \<le> fst (last s) \<longrightarrow>
           map_of (window_averages (hours 5) (half_hours 5) s) (t + half_hours 5)
             = Some (mean (map snd (filter (\<lambda>p. t \<le> fst p \<and> fst p \<le> t + hours 5) s))))
       \<and> (t + hours 10 \<le> fst (last s) \<longrightarrow>
           map_of (window_averages (hours 10) (hours 5) s) (t + hours 5)
             = Some (mean (map snd (filter (\<lambda>p. t \<le> fst p \<and> fst p \<le> t + hours 10) s))))"
  using window_averages_entry [OF assms] by blast

theorem window_mean_closed_interval_witness:
  "sorted_wrt (<) (map fst (hourly 0 [4, 0, 0, 0, 0, 2, 9, 9, 9, 9, 9, 1]))
   \<and> 0 \<in> set (map fst (hourly 0 [4, 0, 0, 0, 0, 2, 9, 9, 9, 9, 9, 1]))
   \<and> 0 + hours 5 \<le> fst (last (hourly 0 [4, 0, 0, 0, 0, 2, 9, 9, 9, 9, 9, 1]))
   \<and> 0 + hours 10 \<le> fst (last (hourly 0 [4, 0, 0, 0, 0, 2, 9, 9, 9, 9, 9, 1]))
   \<and> map_of (window_averages (hours 5) (half_hours 5) (hourly 0 [4, 0, 0, 0, 0, 2, 9, 9, 9, 9, 9, 1]))
        (0 + half_hours 5) = Some (Some 1)
   \<and> map_of (window_averages (hours 10) (hours 5) (hourly 0 [4, 0, 0, 0, 0, 2, 9, 9, 9, 9, 9, 1]))
        (0 + hours 5) = Some (Some (51 / 11))"
proof -
  let ?s = "hourly 0 [4, 0, 0, 0, 0, 2, 9, 9, 9, 9, 9, 1]"
  have a: "sorted_wrt (<) (map fst ?s)"
    by code_simp
  have b: "0 \<in> set (map fst ?s)"
    by code_simp
  have c: "0 + hours 5 \<le> fst (last ?s)" and d: "0 + hours 10 \<le> fst (last ?s)"
    by code_simp+
  have m5: "mean (map snd (filter (\<lambda>p. 0 \<le> fst p \<and> fst p \<le> 0 + hours 5) ?s)) = Some 1"
    by code_simp
  have m10: "mean (map snd (filter (\<lambda>p. 0 \<le> fst p \<and> fst p \<le> 0 + hours 10) ?s)) = Some (51 / 11)"
    by code_simp
  from window_mean_closed_interval [OF a b] c d m5 m10 a b show ?thesis
    by simp
qed

section \<open>Three identical days\<close>



lemma shift_eq_Nil [simp]: "shift k s = [] \<longleftrightarrow> s = []"
  by (simp add: shift_def)




























end
